theory Spec2Isabelle
  imports Main "HOL-Library.Sublist" "HOL-Library.Char_ord" "HOL-Library.List_Lexorder"
    "HOL-Library.AList"
begin

section \<open>The document model consumed by package relnote\<close>

text \<open>
  The package works on the block tree of the Markdown library it imports. Only the part of
  that tree that relnote.go reads or writes is represented: every block carries a
  \<open>Position\<close> (a start and an end line), a heading carries its level and its title, the
  container blocks carry their children. Line numbers are Go \<open>int\<close>s; they are modelled
  as unbounded integers (no document has \<open>2^63\<close> lines).

  The type switches of \<open>text\<close> and \<open>position\<close> in relnote.go enumerate exactly the nine
  block kinds below; their \<open>default: panic\<close> branch is unreachable on this datatype.
  Of the inline nodes the package builds \<open>Plain\<close> and \<open>Link\<close> itself (the title of a
  package heading); the others are a sample of what a parsed text may hold. The values
  of a link-reference map are links too.
\<close>

record position =
  StartLine :: int
  EndLine :: int

datatype inline =
    Plain string
  | Code string
  | Strong "inline list"
  | Emph "inline list"
  | LinkI link
  | HardBreak
  | SoftBreak
and link =
    Link (Inner: "inline list") (URL: string) (Title: string)

text \<open>A \<open>*md.Text\<close>: a position and a run of inline nodes.\<close>

datatype mdtext = MdText (tpos: position) (Inline: "inline list")

datatype block =
    Heading position int mdtext
  | Text mdtext
  | CodeBlock position "string list"
  | HTMLBlock position "string list"
  | List position "block list"
  | Item position "block list"
  | Empty position
  | Paragraph position mdtext
  | Quote position "block list"

text \<open>
  A document: its top-level blocks and its link-reference map. A Go map has no duplicate
  keys and is ranged over in an unspecified order; the association list records the keys
  in the order in which \<open>range\<close> yields them.
\<close>

record document =
  Blocks :: "block list"
  Links :: "(string \<times> link) list"

datatype error =
    EmptyContent
  | MissingLeadingHeading
  | EmptyHeadingText
  | NonMatchingLeadingHeading
  | IncompleteSection string
  | DuplicateLinkReference string string
  | FsError string

section \<open>Positions\<close>

text \<open>\<open>position(b)\<close> (and the library's \<open>b.Pos()\<close>): the position record of a block.\<close>

fun Pos :: "block \<Rightarrow> position" where
  "Pos (Heading p l t) = p"
| "Pos (Text t) = tpos t"
| "Pos (CodeBlock p ls) = p"
| "Pos (HTMLBlock p ls) = p"
| "Pos (List p items) = p"
| "Pos (Item p bs) = p"
| "Pos (Empty p) = p"
| "Pos (Paragraph p t) = p"
| "Pos (Quote p bs) = p"

definition shiftPos :: "int \<Rightarrow> position \<Rightarrow> position" where
  "shiftPos n p = p\<lparr>StartLine := StartLine p + n, EndLine := EndLine p + n\<rparr>"

text \<open>
  \<open>addLines(b, n)\<close> adds \<open>n\<close> to both lines of the block's own position, in place; the
  model returns the updated block. Children and heading titles keep their positions.
\<close>

fun addLines :: "block \<Rightarrow> int \<Rightarrow> block" where
  "addLines (Heading p l t) n = Heading (shiftPos n p) l t"
| "addLines (Text t) n = Text (MdText (shiftPos n (tpos t)) (Inline t))"
| "addLines (CodeBlock p ls) n = CodeBlock (shiftPos n p) ls"
| "addLines (HTMLBlock p ls) n = HTMLBlock (shiftPos n p) ls"
| "addLines (List p items) n = List (shiftPos n p) items"
| "addLines (Item p bs) n = Item (shiftPos n p) bs"
| "addLines (Empty p) n = Empty (shiftPos n p)"
| "addLines (Paragraph p t) n = Paragraph (shiftPos n p) t"
| "addLines (Quote p bs) n = Quote (shiftPos n p) bs"

text \<open>\<open>isHeading\<close>: whether the block is a heading node.\<close>

fun isHeading :: "block \<Rightarrow> bool" where
  "isHeading (Heading p l t) = True"
| "isHeading _ = False"

text \<open>The level of a heading (\<open>None\<close> when the type assertion fails).\<close>

fun headingLevel :: "block \<Rightarrow> int option" where
  "headingLevel (Heading p l t) = Some l"
| "headingLevel _ = None"

fun isEmpty :: "block \<Rightarrow> bool" where
  "isEmpty (Empty p) = True"
| "isEmpty _ = False"

section \<open>removeEmptySections\<close>

text \<open>
  \<open>res\<close> is built in the array of \<open>bs\<close>; it never holds more blocks than the loop has
  read, so no block is overwritten before it is read, and the blocks of a parsed document
  are distinct objects, so shifting one shifts no other. The model therefore builds
  \<open>res\<close> as a list of its own.

  The closure \<open>rem\<close>: while the last block of \<open>res\<close> is a heading of level at least
  \<open>level\<close>, drop it and add its line span plus two to \<open>delta\<close>.
\<close>

function rem :: "int \<Rightarrow> block list \<times> int \<Rightarrow> block list \<times> int" where
  "rem level (res, delta) =
     (if res \<noteq> [] then
        (case headingLevel (last res) of
           Some l \<Rightarrow>
             if l \<ge> level then
               rem level (butlast res,
                 delta + (EndLine (Pos (last res)) - StartLine (Pos (last res)) + 2))
             else (res, delta)
         | None \<Rightarrow> (res, delta))
      else (res, delta))"
  by pat_completeness auto
termination
  by (relation "measure (\<lambda>(level, res, delta). length res)") auto

declare rem.simps [simp del]

text \<open>One iteration of the loop over \<open>bs\<close>.\<close>

definition pruneStep :: "block list \<times> int \<Rightarrow> block \<Rightarrow> block list \<times> int" where
  "pruneStep st b =
     (let st' = (case headingLevel b of Some l \<Rightarrow> rem l st | None \<Rightarrow> st)
      in (fst st' @ [addLines b (- snd st')], snd st'))"

definition removeEmptySections :: "block list \<Rightarrow> block list" where
  "removeEmptySections bs = fst (rem 1 (foldl pruneStep ([], 0) bs))"

text \<open>
  Two predicates used to describe the result of \<open>removeEmptySections\<close>: of two adjacent
  blocks that are both headings the second is the deeper one, and the last block is not a
  heading that \<open>rem level\<close> would drop.
\<close>

definition climbing :: "block \<Rightarrow> block \<Rightarrow> bool" where
  "climbing a b =
     (case headingLevel a of
        Some la \<Rightarrow> (case headingLevel b of Some lb \<Rightarrow> la < lb | None \<Rightarrow> True)
      | None \<Rightarrow> True)"

definition keptLast :: "int \<Rightarrow> block list \<Rightarrow> bool" where
  "keptLast level res =
     (res = [] \<or> (case headingLevel (last res) of Some l \<Rightarrow> l < level | None \<Rightarrow> True))"

section \<open>String helpers of the Go standard library\<close>

text \<open>
  Go strings are byte sequences, as \<open>string\<close> is here. The functions below are the
  standard-library functions relnote.go calls, written from their documented behaviour.
\<close>

definition HasSuffix :: "string \<Rightarrow> string \<Rightarrow> bool" where
  "HasSuffix s suf = suffix suf s"

text \<open>\<open>strings.Contains(s, substr)\<close>.\<close>

fun Contains :: "string \<Rightarrow> string \<Rightarrow> bool" where
  "Contains [] sub = (sub = [])"
| "Contains (c # s) sub = (prefix sub (c # s) \<or> Contains s sub)"

text \<open>\<open>strings.ContainsAny(s, chars)\<close>, for ASCII \<open>chars\<close>.\<close>

definition ContainsAny :: "string \<Rightarrow> string \<Rightarrow> bool" where
  "ContainsAny s chars = list_ex (\<lambda>c. List.member chars c) s"

text \<open>
  \<open>strings.Cut(s, sep)\<close>: the text before and after the first occurrence of \<open>sep\<close> and
  whether it occurs; \<open>(s, "", false)\<close> when it does not.
\<close>

fun Cut :: "string \<Rightarrow> string \<Rightarrow> string \<times> string \<times> bool" where
  "Cut [] sep = ([], [], sep = [])"
| "Cut (c # s) sep =
     (if prefix sep (c # s) then ([], drop (length sep) (c # s), True)
      else (case Cut s sep of (before, after, found) \<Rightarrow> (c # before, after, found)))"

text \<open>\<open>strings.Join(elems, sep)\<close>.\<close>

fun Join :: "string list \<Rightarrow> string \<Rightarrow> string" where
  "Join [] sep = []"
| "Join [x] sep = x"
| "Join (x # y # xs) sep = x @ sep @ Join (y # xs) sep"

text \<open>
  \<open>strings.TrimSpace\<close> removes leading and trailing white space as Unicode defines it.
  \<open>spaceRunes\<close> lists the UTF-8 encodings of the white-space code points: the six ASCII
  ones, U+0085, U+00A0, U+1680, U+2000 to U+200A, U+2028, U+2029, U+202F, U+205F, U+3000.
\<close>

definition spaceRunes :: "string list" where
  "spaceRunes =
     [[CHR 0x09], [CHR 0x0A], [CHR 0x0B], [CHR 0x0C], [CHR 0x0D], [CHR 0x20],
      [CHR 0xC2, CHR 0x85], [CHR 0xC2, CHR 0xA0], [CHR 0xE1, CHR 0x9A, CHR 0x80],
      [CHR 0xE2, CHR 0x80, CHR 0x80], [CHR 0xE2, CHR 0x80, CHR 0x81],
      [CHR 0xE2, CHR 0x80, CHR 0x82], [CHR 0xE2, CHR 0x80, CHR 0x83],
      [CHR 0xE2, CHR 0x80, CHR 0x84], [CHR 0xE2, CHR 0x80, CHR 0x85],
      [CHR 0xE2, CHR 0x80, CHR 0x86], [CHR 0xE2, CHR 0x80, CHR 0x87],
      [CHR 0xE2, CHR 0x80, CHR 0x88], [CHR 0xE2, CHR 0x80, CHR 0x89],
      [CHR 0xE2, CHR 0x80, CHR 0x8A], [CHR 0xE2, CHR 0x80, CHR 0xA8],
      [CHR 0xE2, CHR 0x80, CHR 0xA9], [CHR 0xE2, CHR 0x80, CHR 0xAF],
      [CHR 0xE2, CHR 0x81, CHR 0x9F], [CHR 0xE3, CHR 0x80, CHR 0x80]]"

definition leadingSpace :: "string \<Rightarrow> nat" where
  "leadingSpace s = (case find (\<lambda>r. prefix r s) spaceRunes of Some r \<Rightarrow> length r | None \<Rightarrow> 0)"

function TrimLeftSpace :: "string \<Rightarrow> string" where
  "TrimLeftSpace s =
     (if s \<noteq> [] \<and> 0 < leadingSpace s then TrimLeftSpace (drop (leadingSpace s) s) else s)"
  by pat_completeness auto
termination
  by (relation "measure length") auto

declare TrimLeftSpace.simps [simp del]

definition trailingSpace :: "string \<Rightarrow> nat" where
  "trailingSpace s = (case find (\<lambda>r. suffix r s) spaceRunes of Some r \<Rightarrow> length r | None \<Rightarrow> 0)"

function TrimRightSpace :: "string \<Rightarrow> string" where
  "TrimRightSpace s =
     (if s \<noteq> [] \<and> 0 < trailingSpace s
      then TrimRightSpace (take (length s - trailingSpace s) s) else s)"
  by pat_completeness auto
termination
  by (relation "measure length") auto

declare TrimRightSpace.simps [simp del]

definition TrimSpace :: "string \<Rightarrow> string" where
  "TrimSpace s = TrimRightSpace (TrimLeftSpace s)"

text \<open>
  \<open>path.Split\<close>, \<open>path.Clean\<close> and \<open>path.Dir\<close> of the Go standard library.
  \<open>Split\<close> cuts after the last slash. \<open>Clean\<close> reads the path element by element and
  writes the cleaned path: \<open>out\<close> is what has been written, \<open>dotdot\<close> the length of the
  part of \<open>out\<close> that a \<open>..\<close> element may not remove.
\<close>

definition Split :: "string \<Rightarrow> string \<times> string" where
  "Split p =
     (rev (dropWhile (\<lambda>c. c \<noteq> CHR ''/'') (rev p)), rev (takeWhile (\<lambda>c. c \<noteq> CHR ''/'') (rev p)))"

function backtrack :: "nat \<Rightarrow> string \<Rightarrow> nat \<Rightarrow> nat" where
  "backtrack dotdot out w =
     (if w > dotdot \<and> out ! w \<noteq> CHR ''/'' then backtrack dotdot out (w - 1) else w)"
  by pat_completeness auto
termination
  by (relation "measure (\<lambda>(dotdot, out, w). w)") auto

declare backtrack.simps [simp del]

function cleanLoop :: "bool \<Rightarrow> string \<Rightarrow> nat \<Rightarrow> string \<Rightarrow> string" where
  "cleanLoop rooted out dotdot [] = out"
| "cleanLoop rooted out dotdot (c # cs) =
     (if c = CHR ''/'' then cleanLoop rooted out dotdot cs
      else if c = CHR ''.'' \<and> (cs = [] \<or> hd cs = CHR ''/'') then cleanLoop rooted out dotdot cs
      else if c = CHR ''.'' \<and> hd cs = CHR ''.'' \<and> (tl cs = [] \<or> hd (tl cs) = CHR ''/'') then
        (if length out > dotdot then
           cleanLoop rooted (take (backtrack dotdot out (length out - 1)) out) dotdot (tl cs)
         else if \<not> rooted then
           cleanLoop rooted ((if length out > 0 then out @ ''/'' else out) @ ''..'')
             (length ((if length out > 0 then out @ ''/'' else out) @ ''..'')) (tl cs)
         else cleanLoop rooted out dotdot (tl cs))
      else
        cleanLoop rooted
          ((if rooted \<and> length out \<noteq> 1 \<or> \<not> rooted \<and> length out \<noteq> 0 then out @ ''/'' else out)
             @ c # takeWhile (\<lambda>x. x \<noteq> CHR ''/'') cs)
          dotdot (dropWhile (\<lambda>x. x \<noteq> CHR ''/'') cs))"
  by pat_completeness auto
termination
  by (relation "measure (\<lambda>(rooted, out, dotdot, p). length p)")
     (auto simp: length_dropWhile_le less_Suc_eq_le)

declare cleanLoop.simps [simp del]

definition Clean :: "string \<Rightarrow> string" where
  "Clean p =
     (if p = [] then ''.''
      else
        (let out = (if hd p = CHR ''/'' then cleanLoop True ''/'' 1 (tl p)
                    else cleanLoop False [] 0 p)
         in if out = [] then ''.'' else out))"

definition Dir :: "string \<Rightarrow> string" where
  "Dir p = Clean (fst (Split p))"

section \<open>stdlibPackage\<close>

definition stdlibPackage :: "string \<Rightarrow> string" where
  "stdlibPackage filename =
     (case Cut filename ''/'' of (dir, rest, found) \<Rightarrow>
        if \<not> HasSuffix dir ''stdlib'' then []
        else
          (case Cut rest ''/'' of (dir', rest', found') \<Rightarrow>
             if \<not> HasSuffix dir' ''minor'' then []
             else
               (let pkg = Dir rest' in if pkg = ''.'' then [] else pkg)))"

section \<open>Plain text of a block\<close>

text \<open>
  \<open>text(b)\<close>, here \<open>text_md\<close>, and \<open>blocksText(bs)\<close>. What an inline node prints
  (\<open>in.PrintText\<close>) belongs to the Markdown library and is the parameter \<open>pt\<close>.
\<close>

definition inlineText :: "(inline \<Rightarrow> string) \<Rightarrow> inline list \<Rightarrow> string" where
  "inlineText pt ins = concat (map pt ins)"

fun text_md :: "(inline \<Rightarrow> string) \<Rightarrow> block \<Rightarrow> string"
  and blocksText :: "(inline \<Rightarrow> string) \<Rightarrow> block list \<Rightarrow> string" where
  "text_md pt (Heading p l t) = inlineText pt (Inline t)"
| "text_md pt (Text t) = inlineText pt (Inline t)"
| "text_md pt (CodeBlock p ls) = Join ls [CHR 0x0A]"
| "text_md pt (HTMLBlock p ls) = Join ls [CHR 0x0A]"
| "text_md pt (List p items) = blocksText pt items"
| "text_md pt (Item p bs) = blocksText pt bs"
| "text_md pt (Empty p) = []"
| "text_md pt (Paragraph p t) = inlineText pt (Inline t)"
| "text_md pt (Quote p bs) = blocksText pt bs"
| "blocksText pt [] = []"
| "blocksText pt (b # bs) = text_md pt b @ [CHR 0x0A] @ blocksText pt bs"

section \<open>CheckFragment\<close>

definition headingTextMustMatch :: "string \<Rightarrow> bool" where
  "headingTextMustMatch s = (length s = 0 \<or> hd s \<noteq> CHR ''+'')"

text \<open>
  The loop over \<open>doc.Blocks[1:]\<close>, with its state \<open>(cur, found)\<close>; \<open>break\<close> returns the
  state as it is.
\<close>

fun checkSections :: "(inline \<Rightarrow> string) \<Rightarrow> block \<times> bool \<Rightarrow> block list \<Rightarrow> block \<times> bool" where
  "checkSections pt (cur, found) [] = (cur, found)"
| "checkSections pt (cur, found) (b # bs) =
     (if isHeading b then
        (if \<not> found then (cur, found) else checkSections pt (b, False) bs)
      else
        checkSections pt
          (cur, Contains (text_md pt b) ''TODO'' \<or> ContainsAny (text_md pt b) ''.?!'') bs)"

text \<open>
  \<open>CheckFragment\<close>, from the document the parser returns for \<open>data\<close>; \<open>None\<close> is the
  \<open>nil\<close> error.
\<close>

definition CheckFragment :: "(inline \<Rightarrow> string) \<Rightarrow> document \<Rightarrow> error option" where
  "CheckFragment pt doc =
     (if length (Blocks doc) = 0 then Some EmptyContent
      else if \<not> isHeading (hd (Blocks doc)) then Some MissingLeadingHeading
      else
        (let htext = text_md pt (hd (Blocks doc)) in
         if TrimSpace htext = [] then Some EmptyHeadingText
         else if \<not> headingTextMustMatch htext then Some NonMatchingLeadingHeading
         else
           (case checkSections pt (hd (Blocks doc), False) (tl (Blocks doc)) of
              (cur, found) \<Rightarrow>
                if \<not> found then Some (IncompleteSection (text_md pt cur)) else None)))"

section \<open>Merge\<close>

text \<open>
  The file tree as \<open>Merge\<close> sees it: the calls \<open>fs.WalkDir\<close> makes to its callback
  (path, whether the entry is a directory, the message of the error passed in, if any),
  and for each path the outcome of opening, reading and parsing it: the message of the
  error, or the document the parser returns for the file's content. A path that is not
  listed cannot be opened.
\<close>

record fsys =
  walk :: "(string \<times> bool \<times> string option) list"
  files :: "(string \<times> (string + document)) list"

fun walkFn :: "string list \<Rightarrow> (string \<times> bool \<times> string option) list \<Rightarrow> error + string list" where
  "walkFn filenames [] = Inr filenames"
| "walkFn filenames ((path, isDir, err) # es) =
     (case err of
        Some msg \<Rightarrow> Inl (FsError msg)
      | None \<Rightarrow>
          walkFn (if \<not> isDir \<and> HasSuffix path ''.md'' then filenames @ [path] else filenames) es)"

definition sortedMarkdownFilenames :: "fsys \<Rightarrow> error + string list" where
  "sortedMarkdownFilenames fs =
     (case walkFn [] (walk fs) of Inl e \<Rightarrow> Inl e | Inr filenames \<Rightarrow> Inr (sort filenames))"

definition parseFile :: "fsys \<Rightarrow> string \<Rightarrow> error + document" where
  "parseFile fs path =
     (case map_of (files fs) path of
        None \<Rightarrow> Inl (FsError path)
      | Some (Inl msg) \<Rightarrow> Inl (FsError msg)
      | Some (Inr doc) \<Rightarrow> Inr doc)"

text \<open>\<open>lastBlock\<close> panics on a document without blocks; every call is behind a length check.\<close>

definition lastBlock :: "document \<Rightarrow> block" where
  "lastBlock doc = last (Blocks doc)"

definition stdlibPackageHeading :: "string \<Rightarrow> int \<Rightarrow> block" where
  "stdlibPackageHeading pkg lastLine =
     (let line = lastLine + 2; pos = \<lparr>StartLine = line, EndLine = line\<rparr>
      in Heading pos 4 (MdText pos [LinkI (Link [Plain pkg] (''/pkg/'' @ pkg @ ''/'') [])]))"

text \<open>The loop over \<open>newdoc.Links\<close>.\<close>

fun mergeLinks :: "string \<Rightarrow> (string \<times> link) list \<Rightarrow> (string \<times> link) list
    \<Rightarrow> error + (string \<times> link) list" where
  "mergeLinks filename links [] = Inr links"
| "mergeLinks filename links ((key, l) # rest) =
     (if map_of links key \<noteq> None then Inl (DuplicateLinkReference key filename)
      else mergeLinks filename (AList.update key l links) rest)"

text \<open>
  One iteration of the loop over the file names, after \<open>parseFile\<close>; the state is the
  accumulated document and \<open>prevPkg\<close>. \<open>insertHeading\<close> is the package heading and the
  update of \<open>prevPkg\<close>, \<open>shiftFragment\<close> the whole branch taken when the accumulator has
  blocks, \<open>mergeFile\<close> the body of the loop.
\<close>

definition insertHeading :: "document \<times> string \<Rightarrow> string \<Rightarrow> document \<times> string" where
  "insertHeading st filename =
     (let doc = fst st; prevPkg = snd st; pkg = stdlibPackage filename
      in ((if pkg \<noteq> [] \<and> pkg \<noteq> prevPkg
           then doc\<lparr>Blocks := Blocks doc @ [stdlibPackageHeading pkg (EndLine (Pos (lastBlock doc)))]\<rparr>
           else doc), pkg))"

definition shiftFragment :: "document \<times> string \<Rightarrow> string \<Rightarrow> document
    \<Rightarrow> (document \<times> string) \<times> block list" where
  "shiftFragment st filename newdoc =
     (if length (Blocks (fst st)) > 0 then
        (let st1 = insertHeading st filename;
             lastLine = EndLine (Pos (lastBlock (fst st1)));
             delta = lastLine + 2 - StartLine (Pos (hd (Blocks newdoc)))
         in (st1, map (\<lambda>b. addLines b delta) (Blocks newdoc)))
      else (st, Blocks newdoc))"

definition mergeFile :: "document \<times> string \<Rightarrow> string \<Rightarrow> document \<Rightarrow> error + document \<times> string" where
  "mergeFile st filename newdoc =
     (if length (Blocks newdoc) = 0 then Inr st
      else
        (let st1 = fst (shiftFragment st filename newdoc);
             blocks = snd (shiftFragment st filename newdoc);
             doc = (fst st1)\<lparr>Blocks := Blocks (fst st1) @ filter (\<lambda>b. \<not> isEmpty b) blocks\<rparr>
         in case mergeLinks filename (Links doc) (Links newdoc) of
              Inl e \<Rightarrow> Inl e
            | Inr links \<Rightarrow> Inr (doc\<lparr>Links := links\<rparr>, snd st1)))"

fun mergeFiles :: "fsys \<Rightarrow> document \<times> string \<Rightarrow> string list \<Rightarrow> error + document \<times> string" where
  "mergeFiles fs st [] = Inr st"
| "mergeFiles fs st (filename # filenames) =
     (case parseFile fs filename of
        Inl e \<Rightarrow> Inl e
      | Inr newdoc \<Rightarrow>
          (case mergeFile st filename newdoc of
             Inl e \<Rightarrow> Inl e
           | Inr st' \<Rightarrow> mergeFiles fs st' filenames))"

text \<open>The end of \<open>Merge\<close>: prune, then add the blank line that separates the links.\<close>

definition finish :: "document \<Rightarrow> document" where
  "finish doc =
     (let doc1 = doc\<lparr>Blocks := removeEmptySections (Blocks doc)\<rparr>
      in if length (Blocks doc1) > 0 \<and> length (Links doc1) > 0
         then doc1\<lparr>Blocks := Blocks doc1 @ [Empty (shiftPos 2 (Pos (lastBlock doc1)))]\<rparr>
         else doc1)"

definition Merge :: "fsys \<Rightarrow> error + document" where
  "Merge fs =
     (case sortedMarkdownFilenames fs of
        Inl e \<Rightarrow> Inl e
      | Inr filenames \<Rightarrow>
          (case mergeFiles fs (\<lparr>Blocks = [], Links = []\<rparr>, []) filenames of
             Inl e \<Rightarrow> Inl e
           | Inr st \<Rightarrow> Inr (finish (fst st))))"

section \<open>Predicates on block sequences\<close>

text \<open>
  \<open>lineRange\<close>: the position is a line range (it does not end before it starts).
  \<open>ordered\<close>: each block ends no later than the next one starts. \<open>spaced\<close>: ordered,
  and two adjacent headings have at least one line between them.
\<close>

definition lineRange :: "block \<Rightarrow> bool" where
  "lineRange b = (StartLine (Pos b) \<le> EndLine (Pos b))"





text \<open>
  A section has content when a block that is not a heading comes before the next heading
  of the same or a smaller level (or the end of the document), as the comment on
  \<open>removeEmptySections\<close> puts it.
\<close>

fun sectionHasContent :: "int \<Rightarrow> block list \<Rightarrow> bool" where
  "sectionHasContent level [] = False"
| "sectionHasContent level (b # bs) =
     (case headingLevel b of
        None \<Rightarrow> True
      | Some l \<Rightarrow> if l \<le> level then False else sectionHasContent level bs)"

fun noEmptySections :: "block list \<Rightarrow> bool" where
  "noEmptySections [] = True"
| "noEmptySections (b # bs) =
     ((case headingLevel b of Some l \<Rightarrow> sectionHasContent l bs | None \<Rightarrow> True) \<and>
      noEmptySections bs)"

section \<open>Sample inputs\<close>

text \<open>
  Blocks as the parser returns them (the title of a heading and the text of a paragraph
  carry the position of their block), and small file trees.
\<close>

definition para :: "int \<Rightarrow> int \<Rightarrow> string \<Rightarrow> block" where
  "para s e t =
     Paragraph \<lparr>StartLine = s, EndLine = e\<rparr> (MdText \<lparr>StartLine = s, EndLine = e\<rparr> [Plain t])"

definition heading :: "int \<Rightarrow> int \<Rightarrow> string \<Rightarrow> block" where
  "heading l s t =
     Heading \<lparr>StartLine = s, EndLine = s\<rparr> l (MdText \<lparr>StartLine = s, EndLine = s\<rparr> [Plain t])"

definition goLink :: "string \<times> link" where
  "goLink = (''go'', Link [] ''https://go.dev'' [])"




definition threeFiles :: fsys where
  "threeFiles =
     \<lparr>walk = [(''.'', True, None), (''a'', True, None), (''a/one.md'', False, None),
              (''a.md'', False, None), (''b.md'', False, None), (''notes.txt'', False, None)],
      files =
        [(''a/one.md'', Inr \<lparr>Blocks = [para 1 1 ''Second.''], Links = []\<rparr>),
         (''a.md'', Inr \<lparr>Blocks = [heading 2 1 ''A'', Empty \<lparr>StartLine = 2, EndLine = 2\<rparr>,
                                  para 3 4 ''First.''], Links = [goLink]\<rparr>),
         (''b.md'', Inr \<lparr>Blocks = [para 1 1 ''Third.''], Links = []\<rparr>)]\<rparr>"

definition threeFilesMerged :: document where
  "threeFilesMerged =
     \<lparr>Blocks = [heading 2 1 ''A'', para 3 4 ''First.'', addLines (para 1 1 ''Second.'') 5,
                addLines (para 1 1 ''Third.'') 7, Empty \<lparr>StartLine = 10, EndLine = 10\<rparr>],
      Links = [goLink]\<rparr>"

definition linkedNote :: document where
  "linkedNote = \<lparr>Blocks = [para 1 1 ''See the site.''], Links = [goLink]\<rparr>"

definition sameLinkTree :: fsys where
  "sameLinkTree =
     \<lparr>walk = [(''.'', True, None), (''a.md'', False, None), (''b.md'', False, None)],
      files = [(''a.md'', Inr linkedNote), (''b.md'', Inr linkedNote)]\<rparr>"

definition introState :: "document \<times> string" where
  "introState = (\<lparr>Blocks = [heading 2 1 ''Minor changes'', para 3 4 ''Intro.''], Links = []\<rparr>, [])"

definition httpNote :: document where
  "httpNote = \<lparr>Blocks = [Empty \<lparr>StartLine = 1, EndLine = 1\<rparr>, para 2 2 ''A new method.''], Links = []\<rparr>"

definition singleFileTree :: fsys where
  "singleFileTree =
     \<lparr>walk = [(''.'', True, None), (''note.md'', False, None), (''README'', False, None)],
      files = [(''note.md'',
                Inr \<lparr>Blocks = [heading 2 1 ''Tools'', Empty \<lparr>StartLine = 2, EndLine = 2\<rparr>,
                                para 3 4 ''See the site.''],
                     Links = [goLink]\<rparr>)]\<rparr>"

definition linkedNoteTree :: fsys where
  "linkedNoteTree =
     \<lparr>walk = [(''.'', True, None), (''a.md'', False, None)],
      files = [(''a.md'', Inr linkedNote)]\<rparr>"

definition trailingLine :: document where
  "trailingLine =
     \<lparr>Blocks = [heading 1 1 ''Title'', para 3 3 ''A sentence.'', para 5 5 ''no punctuation''],
      Links = []\<rparr>"

text \<open>A stand-in for \<open>PrintText\<close> on the \<open>Plain\<close> nodes of the samples.\<close>

fun plainText :: "inline \<Rightarrow> string" where
  "plainText (Plain s) = s"
| "plainText _ = []"

section \<open>Facts about positions and \<open>rem\<close>\<close>

lemma rem_Nil [simp]: "rem level ([], d) = ([], d)"
  by (simp add: rem.simps)

lemma rem_snoc:
  "rem level (res @ [b], d) =
     (case headingLevel b of
        Some l \<Rightarrow> if l \<ge> level
                  then rem level (res, d + (EndLine (Pos b) - StartLine (Pos b) + 2))
                  else (res @ [b], d)
      | None \<Rightarrow> (res @ [b], d))"
  by (subst rem.simps) (simp split: option.splits)

lemma headingLevel_addLines [simp]: "headingLevel (addLines b n) = headingLevel b"
  by (cases b) simp_all

lemma isHeading_addLines [simp]: "isHeading (addLines b n) = isHeading b"
  by (cases b) simp_all

lemma isEmpty_addLines [simp]: "isEmpty (addLines b n) = isEmpty b"
  by (cases b) simp_all

lemma Pos_addLines [simp]: "Pos (addLines b n) = shiftPos n (Pos b)"
  by (cases b) simp_all

lemma StartLine_shiftPos [simp]: "StartLine (shiftPos n p) = StartLine p + n"
  by (simp add: shiftPos_def)

lemma EndLine_shiftPos [simp]: "EndLine (shiftPos n p) = EndLine p + n"
  by (simp add: shiftPos_def)

lemma shiftPos_0 [simp]: "shiftPos 0 p = p"
  by (simp add: shiftPos_def)

lemma shiftPos_shiftPos [simp]: "shiftPos m (shiftPos n p) = shiftPos (n + m) p"
  by (simp add: shiftPos_def)

lemma addLines_0 [simp]: "addLines b 0 = b"
  by (cases b) simp_all

lemma addLines_addLines [simp]: "addLines (addLines b n) m = addLines b (n + m)"
  by (cases b) simp_all


lemma rem_prefix: "prefix (fst (rem level (res, d))) res"
proof (induction res arbitrary: d rule: rev_induct)
  case Nil
  then show ?case by simp
next
  case (snoc b res)
  have "prefix (fst (rem level (res, d'))) (res @ [b])" for d'
    using snoc.IH [of d'] by (rule prefix_order.trans) simp
  then show ?case
    by (simp add: rem_snoc split: option.splits)
qed

lemma rem_last:
  "rem level (res, d) = (res', d') \<Longrightarrow> res' \<noteq> [] \<Longrightarrow>
     (case headingLevel (last res') of Some l \<Rightarrow> l < level | None \<Rightarrow> True)"
proof (induction res arbitrary: d rule: rev_induct)
  case Nil
  then show ?case by simp
next
  case (snoc b res)
  then show ?case
    by (auto simp: rem_snoc split: option.splits if_splits)
qed

lemma rem_fixed:
  "res = [] \<or> (case headingLevel (last res) of Some l \<Rightarrow> l < level | None \<Rightarrow> True) \<Longrightarrow>
     rem level (res, d) = (res, d)"
  by (subst rem.simps) (auto split: option.splits)

section \<open>The result of pruning is stable\<close>

lemma successively_prefix:
  "prefix xs ys \<Longrightarrow> successively P ys \<Longrightarrow> successively P xs"
  by (auto simp: prefix_def successively_append_iff)

lemma successively_snoc:
  "successively P (xs @ [y]) \<longleftrightarrow> successively P xs \<and> (xs = [] \<or> P (last xs) y)"
  by (auto simp: successively_append_iff)

lemma rem_keptLast: "keptLast level (fst (rem level (res, d)))"
  using rem_last [of level res d "fst (rem level (res, d))" "snd (rem level (res, d))"]
  by (auto simp: keptLast_def)

lemma rem_keptLast_id: "keptLast level res \<Longrightarrow> rem level (res, d) = (res, d)"
  unfolding keptLast_def by (rule rem_fixed)

lemma pruneStep_heading:
  "headingLevel b = Some l \<Longrightarrow>
     pruneStep st b = (fst (rem l st) @ [addLines b (- snd (rem l st))], snd (rem l st))"
  by (simp add: pruneStep_def Let_def)

lemma pruneStep_other:
  "headingLevel b = None \<Longrightarrow> pruneStep st b = (fst st @ [addLines b (- snd st)], snd st)"
  by (simp add: pruneStep_def Let_def)

lemma pruneStep_climbing:
  assumes "successively climbing res"
  shows "successively climbing (fst (pruneStep (res, d) b))"
proof (cases "headingLevel b")
  case None
  then show ?thesis
    using assms by (simp add: pruneStep_other successively_snoc climbing_def split: option.splits)
next
  case (Some l)
  let ?r = "fst (rem l (res, d))"
  have 1: "successively climbing ?r"
    using rem_prefix assms by (rule successively_prefix)
  have 2: "keptLast l ?r" by (rule rem_keptLast)
  have "?r = [] \<or> climbing (last ?r) (addLines b (- snd (rem l (res, d))))"
    using 2 Some by (auto simp: keptLast_def climbing_def split: option.splits)
  with 1 show ?thesis
    using Some by (simp add: pruneStep_heading successively_snoc)
qed

lemma foldl_pruneStep_climbing:
  "successively climbing (fst st) \<Longrightarrow> successively climbing (fst (foldl pruneStep st bs))"
proof (induction bs arbitrary: st)
  case Nil
  then show ?case by simp
next
  case (Cons b bs)
  obtain res d where st: "st = (res, d)" by (cases st)
  show ?case
    using Cons.prems by (simp add: st Cons.IH pruneStep_climbing)
qed

lemma removeEmptySections_climbing: "successively climbing (removeEmptySections bs)"
proof -
  obtain res d where st: "foldl pruneStep ([], 0) bs = (res, d)"
    by (cases "foldl pruneStep ([], 0) bs")
  have "successively climbing res"
    using foldl_pruneStep_climbing [of "([], 0)" bs] by (simp add: st)
  with rem_prefix [of 1 res d] show ?thesis
    unfolding removeEmptySections_def st by (rule successively_prefix)
qed

lemma removeEmptySections_keptLast: "keptLast 1 (removeEmptySections bs)"
proof -
  obtain res d where st: "foldl pruneStep ([], 0) bs = (res, d)"
    by (cases "foldl pruneStep ([], 0) bs")
  show ?thesis
    unfolding removeEmptySections_def st by (rule rem_keptLast)
qed

lemma foldl_pruneStep_settled:
  "successively climbing (res @ bs) \<Longrightarrow> foldl pruneStep (res, 0) bs = (res @ bs, 0)"
proof (induction bs arbitrary: res)
  case Nil
  then show ?case by simp
next
  case (Cons b bs)
  have sc: "successively climbing ((res @ [b]) @ bs)"
    using Cons.prems by simp
  then have "successively climbing (res @ [b])"
    by (simp only: successively_append_iff)
  then have adj: "res = [] \<or> climbing (last res) b"
    by (simp add: successively_snoc)
  have step: "pruneStep (res, 0) b = (res @ [b], 0)"
  proof (cases "headingLevel b")
    case None
    then show ?thesis by (simp add: pruneStep_other)
  next
    case (Some l)
    have "keptLast l res"
      using adj Some by (auto simp: keptLast_def climbing_def split: option.splits)
    then show ?thesis
      using Some by (simp add: pruneStep_heading rem_keptLast_id)
  qed
  show ?case
    using Cons.IH [OF sc] by (simp add: step)
qed

lemma removeEmptySections_settled:
  "successively climbing bs \<Longrightarrow> keptLast 1 bs \<Longrightarrow> removeEmptySections bs = bs"
  using foldl_pruneStep_settled [of "[]" bs]
  by (simp add: removeEmptySections_def rem_keptLast_id)

text \<open>
  Claim C8. Pruning is idempotent: pruning the result of \<open>removeEmptySections\<close> again
  returns it as it is, blocks and line positions alike, for every block sequence.
\<close>

theorem removeEmptySections_idempotent:
  "removeEmptySections (removeEmptySections bs) = removeEmptySections bs"
  by (rule removeEmptySections_settled)
     (rule removeEmptySections_climbing, rule removeEmptySections_keptLast)

section \<open>Pruning keeps every block that is not a heading\<close>

lemma lineRange_addLines [simp]: "lineRange (addLines b n) = lineRange b"
  by (simp add: lineRange_def)







section \<open>Pruning keeps blocks in order when headings are a blank line apart\<close>









section \<open>Positions in the merged document\<close>







lemma parseFile_files: "parseFile fs p = Inr d \<Longrightarrow> (p, Inr d) \<in> set (files fs)"
  by (auto simp: parseFile_def split: option.splits sum.splits dest: map_of_SomeD)









section \<open>stdlibPackage recognises the package directories\<close>

lemma Cut_slash:
  "Cut s ''/'' =
     (takeWhile (\<lambda>c. c \<noteq> CHR ''/'') s, drop 1 (dropWhile (\<lambda>c. c \<noteq> CHR ''/'') s),
      CHR ''/'' \<in> set s)"
  by (induction s) auto

lemma Cut_segment:
  "CHR ''/'' \<notin> set seg \<Longrightarrow> Cut (seg @ CHR ''/'' # rest) ''/'' = (seg, rest, True)"
  by (induction seg) auto

lemma Cut_found:
  assumes "CHR ''/'' \<in> set s"
  shows "s = fst (Cut s ''/'') @ CHR ''/'' # fst (snd (Cut s ''/''))"
    and "CHR ''/'' \<notin> set (fst (Cut s ''/''))"
proof -
  let ?P = "\<lambda>c. c \<noteq> CHR ''/''"
  have ne: "dropWhile ?P s \<noteq> []"
    using assms by simp
  then have "hd (dropWhile ?P s) = CHR ''/''"
    using hd_dropWhile [of ?P s] by simp
  then have "dropWhile ?P s = CHR ''/'' # drop 1 (dropWhile ?P s)"
    using ne by (cases "dropWhile ?P s") simp_all
  then have "takeWhile ?P s @ CHR ''/'' # drop 1 (dropWhile ?P s) = s"
    using takeWhile_dropWhile_id [of ?P s] by simp
  then show "s = fst (Cut s ''/'') @ CHR ''/'' # fst (snd (Cut s ''/''))"
    by (simp add: Cut_slash)
  show "CHR ''/'' \<notin> set (fst (Cut s ''/''))"
    using set_takeWhileD [of "CHR ''/''" ?P s] by (auto simp: Cut_slash)
qed

lemma Cut_not_found:
  "CHR ''/'' \<notin> set s \<Longrightarrow> Cut s ''/'' = (s, [], False)"
  by (induction s) auto

lemma Clean_nonempty: "Clean p \<noteq> []"
  by (simp add: Clean_def Let_def)

lemma Dir_nonempty: "Dir p \<noteq> []"
  by (simp add: Dir_def Clean_nonempty)

lemma Dir_Nil: "Dir [] = ''.''"
  by (simp add: Dir_def Split_def Clean_def)

lemma stdlibPackage_shape:
  assumes "CHR ''/'' \<notin> set X" "CHR ''/'' \<notin> set Y"
  shows "stdlibPackage (X @ ''stdlib/'' @ Y @ ''minor/'' @ P) =
           (if Dir P = ''.'' then [] else Dir P)"
proof -
  have 1: "Cut (X @ ''stdlib/'' @ Y @ ''minor/'' @ P) ''/'' =
             (X @ ''stdlib'', Y @ ''minor/'' @ P, True)"
    using Cut_segment [of "X @ ''stdlib''" "Y @ ''minor/'' @ P"] assms(1) by simp
  have 2: "Cut (Y @ ''minor/'' @ P) ''/'' = (Y @ ''minor'', P, True)"
    using Cut_segment [of "Y @ ''minor''" P] assms(2) by simp
  have 3: "suffix ''stdlib'' (X @ ''stdlib'')" "suffix ''minor'' (Y @ ''minor'')"
    by (rule suffixI [OF refl])+
  show ?thesis
    using 1 2 3 by (simp add: stdlibPackage_def HasSuffix_def Let_def)
qed

lemma stdlibPackage_nonempty:
  assumes "stdlibPackage filename \<noteq> []"
  shows "\<exists>X Y P. filename = X @ ''stdlib/'' @ Y @ ''minor/'' @ P \<and>
           CHR ''/'' \<notin> set X \<and> CHR ''/'' \<notin> set Y"
proof -
  obtain dir rest found where c1: "Cut filename ''/'' = (dir, rest, found)"
    by (cases "Cut filename ''/''")
  obtain dir' rest' found' where c2: "Cut rest ''/'' = (dir', rest', found')"
    by (cases "Cut rest ''/''")
  have s1: "suffix ''stdlib'' dir" and s2: "suffix ''minor'' dir'" and d: "Dir rest' \<noteq> ''.''"
    using assms by (auto simp: stdlibPackage_def c1 c2 HasSuffix_def Let_def split: if_splits)
  have f2: "CHR ''/'' \<in> set rest"
  proof (rule ccontr)
    assume "CHR ''/'' \<notin> set rest"
    then have "rest' = []" using c2 by (simp add: Cut_not_found)
    then show False using d by (simp add: Dir_Nil)
  qed
  have f1: "CHR ''/'' \<in> set filename"
  proof (rule ccontr)
    assume "CHR ''/'' \<notin> set filename"
    then have "rest = []" using c1 by (simp add: Cut_not_found)
    then show False using f2 by simp
  qed
  from s1 obtain X where X: "dir = X @ ''stdlib''" by (auto simp: suffix_def)
  from s2 obtain Y where Y: "dir' = Y @ ''minor''" by (auto simp: suffix_def)
  have "filename = dir @ CHR ''/'' # rest" "CHR ''/'' \<notin> set dir"
    using Cut_found [OF f1, unfolded c1] by simp_all
  moreover have "rest = dir' @ CHR ''/'' # rest'" "CHR ''/'' \<notin> set dir'"
    using Cut_found [OF f2, unfolded c2] by simp_all
  ultimately have "filename = X @ ''stdlib/'' @ Y @ ''minor/'' @ rest'"
    "CHR ''/'' \<notin> set X" "CHR ''/'' \<notin> set Y"
    by (simp_all add: X Y)
  then show ?thesis by blast
qed

text \<open>
  Claim C5. \<open>stdlibPackage\<close> returns a non-empty package \<open>pkg\<close> exactly when the file
  name is \<open>X\<close>stdlib/\<open>Y\<close>minor/\<open>P\<close>, where the first two segments end in the literal
  suffixes (\<open>X\<close> and \<open>Y\<close> are any text without a slash, so \<open>xstdlib\<close> qualifies) and the
  directory part \<open>Dir P\<close> of the rest is \<open>pkg\<close>, which is neither empty nor \<open>.\<close>; in every
  other case it returns the empty string.
\<close>

theorem stdlibPackage_iff:
  "stdlibPackage filename = pkg \<and> pkg \<noteq> [] \<longleftrightarrow>
     (\<exists>X Y P. filename = X @ ''stdlib/'' @ Y @ ''minor/'' @ P \<and>
        CHR ''/'' \<notin> set X \<and> CHR ''/'' \<notin> set Y \<and>
        Dir P = pkg \<and> pkg \<noteq> [] \<and> pkg \<noteq> ''.'')"
proof
  assume a: "stdlibPackage filename = pkg \<and> pkg \<noteq> []"
  then obtain X Y P where s: "filename = X @ ''stdlib/'' @ Y @ ''minor/'' @ P"
    "CHR ''/'' \<notin> set X" "CHR ''/'' \<notin> set Y"
    using stdlibPackage_nonempty [of filename] by auto
  have "stdlibPackage filename = (if Dir P = ''.'' then [] else Dir P)"
    unfolding s(1) using s(2,3) by (rule stdlibPackage_shape)
  with a have "Dir P = pkg \<and> pkg \<noteq> ''.''"
    by (auto split: if_splits)
  with a s show "\<exists>X Y P. filename = X @ ''stdlib/'' @ Y @ ''minor/'' @ P \<and>
        CHR ''/'' \<notin> set X \<and> CHR ''/'' \<notin> set Y \<and> Dir P = pkg \<and> pkg \<noteq> [] \<and> pkg \<noteq> ''.''"
    by blast
next
  assume "\<exists>X Y P. filename = X @ ''stdlib/'' @ Y @ ''minor/'' @ P \<and>
        CHR ''/'' \<notin> set X \<and> CHR ''/'' \<notin> set Y \<and> Dir P = pkg \<and> pkg \<noteq> [] \<and> pkg \<noteq> ''.''"
  then obtain X Y P where s: "filename = X @ ''stdlib/'' @ Y @ ''minor/'' @ P"
    "CHR ''/'' \<notin> set X" "CHR ''/'' \<notin> set Y" "Dir P = pkg" "pkg \<noteq> []" "pkg \<noteq> ''.''"
    by blast
  have "stdlibPackage filename = (if Dir P = ''.'' then [] else Dir P)"
    unfolding s(1) using s(2,3) by (rule stdlibPackage_shape)
  with s(4,5,6) show "stdlibPackage filename = pkg \<and> pkg \<noteq> []" by simp
qed

theorem stdlibPackage_iff_witness:
  "stdlibPackage ''xstdlib/99-minor/net/http/1.md'' = ''net/http''"
proof -
  have "Dir ''net/http/1.md'' = ''net/http''" by code_simp
  then have "\<exists>X Y P. ''xstdlib/99-minor/net/http/1.md'' = X @ ''stdlib/'' @ Y @ ''minor/'' @ P \<and>
        CHR ''/'' \<notin> set X \<and> CHR ''/'' \<notin> set Y \<and>
        Dir P = ''net/http'' \<and> ''net/http'' \<noteq> [] \<and> ''net/http'' \<noteq> ''.''"
    by (intro exI [of _ "''x''"] exI [of _ "''99-''"] exI [of _ "''net/http/1.md''"]) simp
  with stdlibPackage_iff [of "''xstdlib/99-minor/net/http/1.md''" "''net/http''"]
  show ?thesis by blast
qed

section \<open>One iteration of the merge loop\<close>

lemma map_of_update_other:
  "k' \<noteq> k \<Longrightarrow> map_of (AList.update k v al) k' = map_of al k'"
  by (simp add: update_conv')

lemma mergeLinks_result:
  assumes "distinct (map fst new)"
  shows "case mergeLinks filename acc new of
           Inl e \<Rightarrow> \<exists>key l. e = DuplicateLinkReference key filename \<and> (key, l) \<in> set new \<and>
                      map_of acc key \<noteq> None
         | Inr links \<Rightarrow> (\<forall>key\<in>fst ` set new. map_of acc key = None) \<and>
                      map_of links = map_of acc ++ map_of new"
  using assms
proof (induction new arbitrary: acc)
  case Nil
  then show ?case by simp
next
  case (Cons e new)
  obtain k l where e: "e = (k, l)" by (cases e)
  show ?case
  proof (cases "map_of acc k")
    case (Some l')
    then show ?thesis by (auto simp: e)
  next
    case None
    have d: "distinct (map fst new)" and k: "k \<notin> fst ` set new"
      using Cons.prems by (auto simp: e)
    have other: "map_of (AList.update k l acc) key = map_of acc key" if "key \<in> fst ` set new" for key
      using that k by (intro map_of_update_other) auto
    have knew: "map_of new k = None"
      using k by (simp add: map_of_eq_None_iff)
    have upd: "map_of (AList.update k l acc) ++ map_of new = map_of acc ++ map_of ((k, l) # new)"
      by (rule ext) (auto simp: update_conv' map_add_def knew split: option.splits)
    show ?thesis
    proof (cases "mergeLinks filename (AList.update k l acc) new")
      case (Inl err)
      with Cons.IH [OF d, of "AList.update k l acc"] obtain key l' where
        err: "err = DuplicateLinkReference key filename" and mem: "(key, l') \<in> set new"
        and held: "map_of (AList.update k l acc) key \<noteq> None"
        by auto
      have "key \<in> fst ` set new"
        using mem by force
      then have "map_of acc key \<noteq> None"
        using held other [of key] by simp
      then show ?thesis
        using None Inl err mem by (auto simp: e)
    next
      case (Inr links)
      with Cons.IH [OF d, of "AList.update k l acc"] have
        "\<forall>key\<in>fst ` set new. map_of (AList.update k l acc) key = None"
        "map_of links = map_of (AList.update k l acc) ++ map_of new"
        by auto
      then show ?thesis
        using None Inr other upd by (auto simp: e)
    qed
  qed
qed

lemma update_fresh: "k \<notin> fst ` set al \<Longrightarrow> AList.update k v al = al @ [(k, v)]"
  by (induction al) auto

lemma mergeLinks_fresh:
  "distinct (map fst (acc @ new)) \<Longrightarrow> mergeLinks filename acc new = Inr (acc @ new)"
proof (induction new arbitrary: acc)
  case Nil
  then show ?case by simp
next
  case (Cons e new)
  obtain k l where e: "e = (k, l)" by (cases e)
  have k: "k \<notin> fst ` set acc"
    using Cons.prems by (auto simp: e)
  then have none: "map_of acc k = None"
    by (simp add: map_of_eq_None_iff)
  have "distinct (map fst ((acc @ [(k, l)]) @ new))"
    using Cons.prems by (auto simp: e)
  from Cons.IH [OF this] show ?case
    using none by (simp add: e update_fresh [OF k])
qed

text \<open>The blocks after one iteration with a non-empty fragment and accumulator.\<close>

lemma mergeFile_Blocks:
  assumes "Blocks (fst st) \<noteq> []" "Blocks nd \<noteq> []" "mergeFile st filename nd = Inr st'"
  shows "Blocks (fst st') =
           Blocks (fst (insertHeading st filename)) @
           filter (\<lambda>b. \<not> isEmpty b)
             (map (\<lambda>b. addLines b
                (EndLine (Pos (last (Blocks (fst (insertHeading st filename))))) + 2
                   - StartLine (Pos (hd (Blocks nd))))) (Blocks nd))"
    and "snd st' = stdlibPackage filename"
  using assms
  by (auto simp: mergeFile_def shiftFragment_def Let_def lastBlock_def insertHeading_def split: sum.splits)

lemma mergeFile_first:
  assumes "Blocks (fst st) = []" "Blocks nd \<noteq> []" "mergeFile st filename nd = Inr st'"
  shows "Blocks (fst st') = filter (\<lambda>b. \<not> isEmpty b) (Blocks nd)" and "snd st' = snd st"
  using assms by (auto simp: mergeFile_def shiftFragment_def Let_def split: sum.splits)

lemma insertHeading_Links [simp]: "Links (fst (insertHeading st filename)) = Links (fst st)"
  by (simp add: insertHeading_def Let_def)

lemma mergeFile_Links:
  assumes "Blocks nd \<noteq> []"
  shows "mergeFile st filename nd = Inl e \<longleftrightarrow>
           mergeLinks filename (Links (fst st)) (Links nd) = Inl e"
    and "mergeFile st filename nd = Inr st' \<Longrightarrow>
           mergeLinks filename (Links (fst st)) (Links nd) = Inr (Links (fst st'))"
  using assms
  by (cases "Blocks (fst st) = []"; auto simp: mergeFile_def shiftFragment_def Let_def split: sum.splits)+

lemma insertHeading_Blocks:
  "Blocks (fst (insertHeading st filename)) =
     Blocks (fst st) @
       (if stdlibPackage filename \<noteq> [] \<and> stdlibPackage filename \<noteq> snd st
        then [stdlibPackageHeading (stdlibPackage filename) (EndLine (Pos (last (Blocks (fst st)))))]
        else [])"
  by (simp add: insertHeading_def Let_def lastBlock_def)

lemma comprehension_filter_map:
  "[addLines b n. b \<leftarrow> bs, \<not> isEmpty b] = filter (\<lambda>b. \<not> isEmpty b) (map (\<lambda>b. addLines b n) bs)"
  by (induction bs) simp_all

lemma parseFile_error: "parseFile fs p = Inl e \<Longrightarrow> \<exists>msg. e = FsError msg"
  by (auto simp: parseFile_def split: option.splits sum.splits)

lemma walkFn_error: "walkFn filenames es = Inl e \<Longrightarrow> \<exists>msg. e = FsError msg"
  by (induction es arbitrary: filenames) (auto split: option.splits)

lemma mergeFile_keys:
  assumes "mergeFile st filename nd = Inr st'" "distinct (map fst (Links nd))"
  shows "fst ` set (Links (fst st')) \<subseteq> fst ` set (Links (fst st)) \<union> fst ` set (Links nd)"
proof (cases "Blocks nd = []")
  case True
  then show ?thesis using assms(1) by (auto simp: mergeFile_def)
next
  case False
  then have "mergeLinks filename (Links (fst st)) (Links nd) = Inr (Links (fst st'))"
    using assms(1) by (rule mergeFile_Links(2))
  with mergeLinks_result [OF assms(2), of filename "Links (fst st)"]
  have "map_of (Links (fst st')) = map_of (Links (fst st)) ++ map_of (Links nd)"
    by simp
  then have "dom (map_of (Links (fst st'))) =
      dom (map_of (Links (fst st))) \<union> dom (map_of (Links nd))"
    by auto
  then show ?thesis
    by (simp add: dom_map_of_conv_image_fst)
qed

lemma mergeFile_duplicate:
  assumes "mergeFile st filename nd = Inl e" "distinct (map fst (Links nd))"
  shows "\<exists>key. e = DuplicateLinkReference key filename \<and> key \<in> fst ` set (Links nd) \<and>
           key \<in> fst ` set (Links (fst st))"
proof -
  have ne: "Blocks nd \<noteq> []"
    using assms(1) by (auto simp: mergeFile_def)
  then have "mergeLinks filename (Links (fst st)) (Links nd) = Inl e"
    using assms(1) mergeFile_Links(1) by simp
  with mergeLinks_result [OF assms(2), of filename "Links (fst st)"]
  obtain key l where k: "e = DuplicateLinkReference key filename" "(key, l) \<in> set (Links nd)"
    "map_of (Links (fst st)) key \<noteq> None"
    by auto
  from k(2) have "key \<in> fst ` set (Links nd)" by force
  moreover from k(3) have "key \<in> fst ` set (Links (fst st))"
    by (simp add: map_of_eq_None_iff)
  ultimately show ?thesis using k(1) by blast
qed

lemma mergeFiles_duplicate:
  assumes dist: "\<forall>(p, r)\<in>set (files fs). \<forall>d. r = Inr d \<longrightarrow> distinct (map fst (Links d))"
  shows "mergeFiles fs st names = Inl (DuplicateLinkReference key f) \<Longrightarrow>
     \<forall>k\<in>fst ` set (Links (fst st)).
        \<exists>f'\<in>set seen. \<exists>d'. parseFile fs f' = Inr d' \<and> k \<in> fst ` set (Links d') \<Longrightarrow>
     \<exists>pre post d f' d'. names = pre @ f # post \<and> f' \<in> set (seen @ pre) \<and>
        parseFile fs f = Inr d \<and> parseFile fs f' = Inr d' \<and>
        key \<in> fst ` set (Links d) \<and> key \<in> fst ` set (Links d')"
proof (induction names arbitrary: st seen)
  case Nil
  then show ?case by simp
next
  case (Cons n names)
  from Cons.prems(1) obtain nd where p: "parseFile fs n = Inr nd"
    by (cases "parseFile fs n") (auto dest: parseFile_error)
  have d: "distinct (map fst (Links nd))"
    using dist parseFile_files [OF p] by auto
  show ?case
  proof (cases "mergeFile st n nd")
    case (Inl e)
    then have e: "e = DuplicateLinkReference key f"
      using Cons.prems(1) p by simp
    from mergeFile_duplicate [OF Inl d] e have
      "f = n" "key \<in> fst ` set (Links nd)" "key \<in> fst ` set (Links (fst st))"
      by auto
    moreover from this(3) Cons.prems(2) obtain f' d' where
      "f' \<in> set seen" "parseFile fs f' = Inr d'" "key \<in> fst ` set (Links d')"
      by blast
    ultimately have "n # names = [] @ f # names \<and> f' \<in> set (seen @ []) \<and>
        parseFile fs f = Inr nd \<and> parseFile fs f' = Inr d' \<and>
        key \<in> fst ` set (Links nd) \<and> key \<in> fst ` set (Links d')"
      using p by simp
    then show ?thesis by blast
  next
    case (Inr st1)
    then have r: "mergeFiles fs st1 names = Inl (DuplicateLinkReference key f)"
      using Cons.prems(1) p by simp
    have "\<forall>k\<in>fst ` set (Links (fst st1)).
        \<exists>f'\<in>set (seen @ [n]). \<exists>d'. parseFile fs f' = Inr d' \<and> k \<in> fst ` set (Links d')"
    proof
      fix k
      assume "k \<in> fst ` set (Links (fst st1))"
      then have "k \<in> fst ` set (Links (fst st)) \<or> k \<in> fst ` set (Links nd)"
        using mergeFile_keys [OF Inr d] by auto
      then show "\<exists>f'\<in>set (seen @ [n]). \<exists>d'. parseFile fs f' = Inr d' \<and> k \<in> fst ` set (Links d')"
      proof
        assume "k \<in> fst ` set (Links (fst st))"
        with Cons.prems(2) show ?thesis by auto
      next
        assume "k \<in> fst ` set (Links nd)"
        with p show ?thesis by auto
      qed
    qed
    from Cons.IH [OF r this] obtain pre post d f' d' where
      "names = pre @ f # post" "f' \<in> set ((seen @ [n]) @ pre)"
      "parseFile fs f = Inr d" "parseFile fs f' = Inr d'"
      "key \<in> fst ` set (Links d)" "key \<in> fst ` set (Links d')"
      by blast
    then have "n # names = (n # pre) @ f # post \<and> f' \<in> set (seen @ n # pre) \<and>
        parseFile fs f = Inr d \<and> parseFile fs f' = Inr d' \<and>
        key \<in> fst ` set (Links d) \<and> key \<in> fst ` set (Links d')"
      by simp
    then show ?thesis by blast
  qed
qed

lemma Merge_duplicate:
  assumes "Merge fs = Inl (DuplicateLinkReference key f)"
    and "\<forall>(p, r)\<in>set (files fs). \<forall>d. r = Inr d \<longrightarrow> distinct (map fst (Links d))"
  shows "\<exists>pre post d f' d'. sortedMarkdownFilenames fs = Inr (pre @ f # post) \<and> f' \<in> set pre \<and>
        parseFile fs f = Inr d \<and> parseFile fs f' = Inr d' \<and>
        key \<in> fst ` set (Links d) \<and> key \<in> fst ` set (Links d')"
proof -
  from assms(1) obtain names where n: "sortedMarkdownFilenames fs = Inr names"
    by (cases "sortedMarkdownFilenames fs")
       (auto simp: Merge_def sortedMarkdownFilenames_def split: sum.splits dest: walkFn_error)
  then have "mergeFiles fs (\<lparr>Blocks = [], Links = []\<rparr>, []) names =
      Inl (DuplicateLinkReference key f)"
    using assms(1) by (auto simp: Merge_def split: sum.splits)
  from mergeFiles_duplicate [OF assms(2) this, of "[]"] show ?thesis
    using n by simp
qed

text \<open>
  Claim C2, as amended. Folding the link map of a fragment with blocks into the
  accumulator fails exactly when a key of the fragment is already a key of the
  accumulator, whether or not the two entries are equal. The error is
  \<open>DuplicateLinkReference\<close> with such a key and the name of the file being folded.
  Otherwise every entry of the fragment is inserted and the entries already held stay.
  When \<open>Merge\<close> fails with this error, the file it names defines the key and so does a
  file that comes before it in merge order: the error names the later file.
\<close>

theorem duplicate_link_reference:
  "(distinct (map fst (Links newdoc)) \<and> Blocks newdoc \<noteq> [] \<longrightarrow>
     (case mergeFile st filename newdoc of
        Inl e \<Rightarrow>
          \<exists>key l. e = DuplicateLinkReference key filename \<and> (key, l) \<in> set (Links newdoc) \<and>
            map_of (Links (fst st)) key \<noteq> None
      | Inr st' \<Rightarrow>
          (\<forall>key\<in>fst ` set (Links newdoc). map_of (Links (fst st)) key = None) \<and>
          map_of (Links (fst st')) = map_of (Links (fst st)) ++ map_of (Links newdoc))) \<and>
   (Merge fs = Inl (DuplicateLinkReference k f) \<and>
    (\<forall>(p, r)\<in>set (files fs). \<forall>d. r = Inr d \<longrightarrow> distinct (map fst (Links d))) \<longrightarrow>
      (\<exists>pre post d f' d'. sortedMarkdownFilenames fs = Inr (pre @ f # post) \<and> f' \<in> set pre \<and>
         parseFile fs f = Inr d \<and> parseFile fs f' = Inr d' \<and>
         k \<in> fst ` set (Links d) \<and> k \<in> fst ` set (Links d')))"
proof (intro conjI impI)
  assume a: "distinct (map fst (Links newdoc)) \<and> Blocks newdoc \<noteq> []"
  then have ne: "Blocks newdoc \<noteq> []" by simp
  note r = mergeLinks_result [of "Links newdoc" filename "Links (fst st)"]
  show "case mergeFile st filename newdoc of
        Inl e \<Rightarrow>
          \<exists>key l. e = DuplicateLinkReference key filename \<and> (key, l) \<in> set (Links newdoc) \<and>
            map_of (Links (fst st)) key \<noteq> None
      | Inr st' \<Rightarrow>
          (\<forall>key\<in>fst ` set (Links newdoc). map_of (Links (fst st)) key = None) \<and>
          map_of (Links (fst st')) = map_of (Links (fst st)) ++ map_of (Links newdoc)"
  proof (cases "mergeFile st filename newdoc")
    case (Inl e)
    then have "mergeLinks filename (Links (fst st)) (Links newdoc) = Inl e"
      using mergeFile_Links(1) [OF ne] by simp
    with r a Inl show ?thesis by simp
  next
    case (Inr st')
    then have "mergeLinks filename (Links (fst st)) (Links newdoc) = Inr (Links (fst st'))"
      using mergeFile_Links(2) [OF ne] by simp
    with r a Inr show ?thesis by simp
  qed
next
  assume "Merge fs = Inl (DuplicateLinkReference k f) \<and>
    (\<forall>(p, r)\<in>set (files fs). \<forall>d. r = Inr d \<longrightarrow> distinct (map fst (Links d)))"
  then show "\<exists>pre post d f' d'. sortedMarkdownFilenames fs = Inr (pre @ f # post) \<and> f' \<in> set pre \<and>
         parseFile fs f = Inr d \<and> parseFile fs f' = Inr d' \<and>
         k \<in> fst ` set (Links d) \<and> k \<in> fst ` set (Links d')"
    using Merge_duplicate [of fs k f] by blast
qed

theorem duplicate_link_reference_witness:
  "mergeFile (linkedNote, []) ''b.md'' linkedNote = Inl (DuplicateLinkReference ''go'' ''b.md'') \<and>
   (\<exists>key l. DuplicateLinkReference ''go'' ''b.md'' = DuplicateLinkReference key ''b.md'' \<and>
      (key, l) \<in> set (Links linkedNote) \<and> map_of (Links linkedNote) key \<noteq> None) \<and>
   Merge sameLinkTree = Inl (DuplicateLinkReference ''go'' ''b.md'') \<and>
   (\<exists>pre post d f' d'. sortedMarkdownFilenames sameLinkTree = Inr (pre @ ''b.md'' # post) \<and>
      f' \<in> set pre \<and> parseFile sameLinkTree ''b.md'' = Inr d \<and>
      parseFile sameLinkTree f' = Inr d' \<and>
      ''go'' \<in> fst ` set (Links d) \<and> ''go'' \<in> fst ` set (Links d'))"
proof -
  have 1: "mergeFile (linkedNote, []) ''b.md'' linkedNote =
      Inl (DuplicateLinkReference ''go'' ''b.md'')"
    by code_simp
  have 2: "distinct (map fst (Links linkedNote)) \<and> Blocks linkedNote \<noteq> []"
    by (simp add: linkedNote_def goLink_def)
  have 3: "Merge sameLinkTree = Inl (DuplicateLinkReference ''go'' ''b.md'')"
    by code_simp
  have 4: "\<forall>(p, r)\<in>set (files sameLinkTree). \<forall>d. r = Inr d \<longrightarrow> distinct (map fst (Links d))"
    by (simp add: sameLinkTree_def linkedNote_def goLink_def)
  note t = duplicate_link_reference
    [where newdoc = linkedNote and st = "(linkedNote, [])" and filename = "''b.md''"
       and fs = sameLinkTree and k = "''go''" and f = "''b.md''"]
  from t [THEN conjunct1] 1 2
  have "\<exists>key l. DuplicateLinkReference ''go'' ''b.md'' = DuplicateLinkReference key ''b.md'' \<and>
      (key, l) \<in> set (Links linkedNote) \<and> map_of (Links linkedNote) key \<noteq> None"
    by simp
  moreover from t [THEN conjunct2] 3 4
  have "\<exists>pre post d f' d'. sortedMarkdownFilenames sameLinkTree = Inr (pre @ ''b.md'' # post) \<and>
      f' \<in> set pre \<and> parseFile sameLinkTree ''b.md'' = Inr d \<and>
      parseFile sameLinkTree f' = Inr d' \<and>
      ''go'' \<in> fst ` set (Links d) \<and> ''go'' \<in> fst ` set (Links d')"
    by blast
  ultimately show ?thesis using 1 3 by blast
qed

text \<open>
  Two files that define the same key with the same target: the entry the accumulator
  holds is not different from the one to insert, and the merge fails all the same.
\<close>

theorem equal_entry_is_duplicate:
  "Merge sameLinkTree = Inl (DuplicateLinkReference ''go'' ''b.md'') \<and>
   mergeLinks ''b.md'' [goLink] [goLink] = Inl (DuplicateLinkReference ''go'' ''b.md'')"
  by code_simp

text \<open>
  Claim C3. A fragment without blocks leaves the state as it is. Folding a fragment with
  blocks into an accumulator with blocks takes \<open>delta\<close> = (the end line of the
  accumulator's last block, which is the package heading when one has just been
  appended) + 2 - (the start line of the fragment's first block, whatever its kind),
  adds \<open>delta\<close> to the start and end line of every top-level block of the fragment, and
  appends the shifted blocks except the Empty ones.
\<close>

theorem mergeFile_shifts_fragment:
  "(Blocks newdoc = [] \<longrightarrow> mergeFile st filename newdoc = Inr st) \<and>
   (Blocks (fst st) \<noteq> [] \<and> Blocks newdoc \<noteq> [] \<and> mergeFile st filename newdoc = Inr st' \<longrightarrow>
      (let pkg = stdlibPackage filename;
           acc = Blocks (fst st) @
             (if pkg \<noteq> [] \<and> pkg \<noteq> snd st
              then [stdlibPackageHeading pkg (EndLine (Pos (last (Blocks (fst st)))))] else []);
           delta = EndLine (Pos (last acc)) + 2 - StartLine (Pos (hd (Blocks newdoc)))
       in Blocks (fst st') = acc @ [addLines b delta. b \<leftarrow> Blocks newdoc, \<not> isEmpty b] \<and>
          StartLine (Pos (addLines (hd (Blocks newdoc)) delta)) = EndLine (Pos (last acc)) + 2 \<and>
          (\<forall>b\<in>set (Blocks newdoc).
             StartLine (Pos (addLines b delta)) = StartLine (Pos b) + delta \<and>
             EndLine (Pos (addLines b delta)) = EndLine (Pos b) + delta)))"
proof (intro conjI impI)
  assume "Blocks newdoc = []"
  then show "mergeFile st filename newdoc = Inr st"
    by (simp add: mergeFile_def)
next
  assume a: "Blocks (fst st) \<noteq> [] \<and> Blocks newdoc \<noteq> [] \<and> mergeFile st filename newdoc = Inr st'"
  then have "Blocks (fst st') =
           Blocks (fst (insertHeading st filename)) @
           filter (\<lambda>b. \<not> isEmpty b)
             (map (\<lambda>b. addLines b
                (EndLine (Pos (last (Blocks (fst (insertHeading st filename))))) + 2
                   - StartLine (Pos (hd (Blocks newdoc))))) (Blocks newdoc))"
    by (intro mergeFile_Blocks(1)) simp_all
  then show "let pkg = stdlibPackage filename;
           acc = Blocks (fst st) @
             (if pkg \<noteq> [] \<and> pkg \<noteq> snd st
              then [stdlibPackageHeading pkg (EndLine (Pos (last (Blocks (fst st)))))] else []);
           delta = EndLine (Pos (last acc)) + 2 - StartLine (Pos (hd (Blocks newdoc)))
       in Blocks (fst st') = acc @ [addLines b delta. b \<leftarrow> Blocks newdoc, \<not> isEmpty b] \<and>
          StartLine (Pos (addLines (hd (Blocks newdoc)) delta)) = EndLine (Pos (last acc)) + 2 \<and>
          (\<forall>b\<in>set (Blocks newdoc).
             StartLine (Pos (addLines b delta)) = StartLine (Pos b) + delta \<and>
             EndLine (Pos (addLines b delta)) = EndLine (Pos b) + delta)"
    unfolding Let_def comprehension_filter_map insertHeading_Blocks by simp
qed

theorem mergeFile_shifts_fragment_witness:
  "mergeFile introState ''b.md'' httpNote =
     Inr (\<lparr>Blocks = [heading 2 1 ''Minor changes'', para 3 4 ''Intro.'',
                      addLines (para 2 2 ''A new method.'') 5], Links = []\<rparr>, []) \<and>
   (let pkg = stdlibPackage ''b.md'';
        acc = Blocks (fst introState) @
          (if pkg \<noteq> [] \<and> pkg \<noteq> snd introState
           then [stdlibPackageHeading pkg (EndLine (Pos (last (Blocks (fst introState)))))] else []);
        delta = EndLine (Pos (last acc)) + 2 - StartLine (Pos (hd (Blocks httpNote)))
    in delta = 5 \<and>
       [heading 2 1 ''Minor changes'', para 3 4 ''Intro.'', addLines (para 2 2 ''A new method.'') 5] =
         acc @ [addLines b delta. b \<leftarrow> Blocks httpNote, \<not> isEmpty b] \<and>
       StartLine (Pos (addLines (hd (Blocks httpNote)) delta)) = EndLine (Pos (last acc)) + 2)"
proof -
  have 1: "mergeFile introState ''b.md'' httpNote =
     Inr (\<lparr>Blocks = [heading 2 1 ''Minor changes'', para 3 4 ''Intro.'',
                      addLines (para 2 2 ''A new method.'') 5], Links = []\<rparr>, [])"
    by code_simp
  have 2: "Blocks (fst introState) \<noteq> [] \<and> Blocks httpNote \<noteq> []"
    by (simp add: introState_def httpNote_def)
  have 3: "stdlibPackage ''b.md'' = []"
    by code_simp
  have 4: "EndLine (Pos (last (Blocks (fst introState)))) + 2 - StartLine (Pos (hd (Blocks httpNote))) = 5"
    by (simp add: introState_def httpNote_def para_def)
  from mergeFile_shifts_fragment
    [where newdoc = httpNote and st = introState and filename = "''b.md''", THEN conjunct2, rule_format, OF conjI [OF conjunct1 [OF 2] conjI [OF conjunct2 [OF 2] 1]]]
  show ?thesis
    using 1 3 4 by (simp add: Let_def)
qed

text \<open>
  Claim C4. When a fragment with blocks is folded into an accumulator with blocks,
  \<open>prevPkg\<close> becomes the package of the file name in every case. When that package is
  not empty and differs from the previous \<open>prevPkg\<close>, a level-4 heading is appended
  first, two lines below the accumulator's last block, whose text is one link with the
  label \<open>pkg\<close> and the target \<open>/pkg/pkg/\<close>, and the fragment follows two lines below the
  heading; otherwise the fragment follows directly. Hence of two files folded one after
  the other with the same package, the second gets no heading.
\<close>

theorem package_heading_once:
  "(Blocks (fst st) \<noteq> [] \<and> Blocks newdoc \<noteq> [] \<and> mergeFile st filename newdoc = Inr st' \<longrightarrow>
      snd st' = stdlibPackage filename \<and>
      (let pkg = stdlibPackage filename;
           line = EndLine (Pos (last (Blocks (fst st)))) + 2;
           pos = \<lparr>StartLine = line, EndLine = line\<rparr>;
           first = StartLine (Pos (hd (Blocks newdoc)))
       in if pkg \<noteq> [] \<and> pkg \<noteq> snd st
          then Blocks (fst st') =
                 Blocks (fst st) @
                 [Heading pos 4 (MdText pos [LinkI (Link [Plain pkg] (''/pkg/'' @ pkg @ ''/'') [])])] @
                 [addLines b (line + 2 - first). b \<leftarrow> Blocks newdoc, \<not> isEmpty b]
          else Blocks (fst st') =
                 Blocks (fst st) @
                 [addLines b (line - first). b \<leftarrow> Blocks newdoc, \<not> isEmpty b])) \<and>
   (Blocks (fst st) \<noteq> [] \<and> Blocks d1 \<noteq> [] \<and> Blocks d2 \<noteq> [] \<and>
    mergeFile st f1 d1 = Inr st1 \<and> mergeFile st1 f2 d2 = Inr st2 \<and>
    stdlibPackage f2 = stdlibPackage f1 \<longrightarrow>
      Blocks (fst st2) =
        Blocks (fst st1) @
        [addLines b (EndLine (Pos (last (Blocks (fst st1)))) + 2 - StartLine (Pos (hd (Blocks d2)))).
           b \<leftarrow> Blocks d2, \<not> isEmpty b])"
proof (intro conjI impI)
  assume a: "Blocks (fst st) \<noteq> [] \<and> Blocks newdoc \<noteq> [] \<and> mergeFile st filename newdoc = Inr st'"
  then show "snd st' = stdlibPackage filename"
    by (intro mergeFile_Blocks(2) [of st newdoc filename st']) simp_all
  from a have "Blocks (fst st') =
           Blocks (fst (insertHeading st filename)) @
           filter (\<lambda>b. \<not> isEmpty b)
             (map (\<lambda>b. addLines b
                (EndLine (Pos (last (Blocks (fst (insertHeading st filename))))) + 2
                   - StartLine (Pos (hd (Blocks newdoc))))) (Blocks newdoc))"
    by (intro mergeFile_Blocks(1)) simp_all
  then show "let pkg = stdlibPackage filename;
           line = EndLine (Pos (last (Blocks (fst st)))) + 2;
           pos = \<lparr>StartLine = line, EndLine = line\<rparr>;
           first = StartLine (Pos (hd (Blocks newdoc)))
       in if pkg \<noteq> [] \<and> pkg \<noteq> snd st
          then Blocks (fst st') =
                 Blocks (fst st) @
                 [Heading pos 4 (MdText pos [LinkI (Link [Plain pkg] (''/pkg/'' @ pkg @ ''/'') [])])] @
                 [addLines b (line + 2 - first). b \<leftarrow> Blocks newdoc, \<not> isEmpty b]
          else Blocks (fst st') =
                 Blocks (fst st) @
                 [addLines b (line - first). b \<leftarrow> Blocks newdoc, \<not> isEmpty b]"
    unfolding Let_def comprehension_filter_map insertHeading_Blocks
    by (simp add: stdlibPackageHeading_def Let_def)
next
  assume a: "Blocks (fst st) \<noteq> [] \<and> Blocks d1 \<noteq> [] \<and> Blocks d2 \<noteq> [] \<and>
    mergeFile st f1 d1 = Inr st1 \<and> mergeFile st1 f2 d2 = Inr st2 \<and>
    stdlibPackage f2 = stdlibPackage f1"
  then have 1: "snd st1 = stdlibPackage f1"
    by (intro mergeFile_Blocks(2) [of st d1 f1 st1]) simp_all
  have "Blocks (fst st1) =
           Blocks (fst (insertHeading st f1)) @
           filter (\<lambda>b. \<not> isEmpty b)
             (map (\<lambda>b. addLines b
                (EndLine (Pos (last (Blocks (fst (insertHeading st f1))))) + 2
                   - StartLine (Pos (hd (Blocks d1))))) (Blocks d1))"
    using a by (intro mergeFile_Blocks(1)) simp_all
  then have 2: "Blocks (fst st1) \<noteq> []"
    using a by (simp add: insertHeading_Blocks)
  have "Blocks (fst st2) =
           Blocks (fst (insertHeading st1 f2)) @
           filter (\<lambda>b. \<not> isEmpty b)
             (map (\<lambda>b. addLines b
                (EndLine (Pos (last (Blocks (fst (insertHeading st1 f2))))) + 2
                   - StartLine (Pos (hd (Blocks d2))))) (Blocks d2))"
    using a 2 by (intro mergeFile_Blocks(1)) simp_all
  moreover have "Blocks (fst (insertHeading st1 f2)) = Blocks (fst st1)"
    using a 1 by (simp add: insertHeading_Blocks)
  ultimately show "Blocks (fst st2) =
        Blocks (fst st1) @
        [addLines b (EndLine (Pos (last (Blocks (fst st1)))) + 2 - StartLine (Pos (hd (Blocks d2)))).
           b \<leftarrow> Blocks d2, \<not> isEmpty b]"
    by (simp add: comprehension_filter_map)
qed

theorem package_heading_once_witness:
  "mergeFile introState ''6-stdlib/99-minor/net/http/1.md'' httpNote =
     Inr (\<lparr>Blocks = [heading 2 1 ''Minor changes'', para 3 4 ''Intro.'',
                      Heading \<lparr>StartLine = 6, EndLine = 6\<rparr> 4
                        (MdText \<lparr>StartLine = 6, EndLine = 6\<rparr>
                           [LinkI (Link [Plain ''net/http''] ''/pkg/net/http/'' [])]),
                      addLines (para 2 2 ''A new method.'') 7], Links = []\<rparr>, ''net/http'') \<and>
   mergeFile
     (\<lparr>Blocks = [heading 2 1 ''Minor changes'', para 3 4 ''Intro.'',
                 Heading \<lparr>StartLine = 6, EndLine = 6\<rparr> 4
                   (MdText \<lparr>StartLine = 6, EndLine = 6\<rparr>
                      [LinkI (Link [Plain ''net/http''] ''/pkg/net/http/'' [])]),
                 addLines (para 2 2 ''A new method.'') 7], Links = []\<rparr>, ''net/http'')
     ''6-stdlib/99-minor/net/http/2.md'' httpNote =
     Inr (\<lparr>Blocks = [heading 2 1 ''Minor changes'', para 3 4 ''Intro.'',
                      Heading \<lparr>StartLine = 6, EndLine = 6\<rparr> 4
                        (MdText \<lparr>StartLine = 6, EndLine = 6\<rparr>
                           [LinkI (Link [Plain ''net/http''] ''/pkg/net/http/'' [])]),
                      addLines (para 2 2 ''A new method.'') 7,
                      addLines (para 2 2 ''A new method.'') 10], Links = []\<rparr>, ''net/http'') \<and>
   stdlibPackage ''6-stdlib/99-minor/net/http/1.md'' = ''net/http''"
proof -
  let ?f1 = "''6-stdlib/99-minor/net/http/1.md''"
  let ?st1 = "(\<lparr>Blocks = [heading 2 1 ''Minor changes'', para 3 4 ''Intro.'',
                 Heading \<lparr>StartLine = 6, EndLine = 6\<rparr> 4
                   (MdText \<lparr>StartLine = 6, EndLine = 6\<rparr>
                      [LinkI (Link [Plain ''net/http''] ''/pkg/net/http/'' [])]),
                 addLines (para 2 2 ''A new method.'') 7], Links = []\<rparr>, ''net/http'')"
  have 1: "mergeFile introState ?f1 httpNote = Inr ?st1"
    by code_simp
  have 2: "mergeFile ?st1 ''6-stdlib/99-minor/net/http/2.md'' httpNote =
     Inr (\<lparr>Blocks = [heading 2 1 ''Minor changes'', para 3 4 ''Intro.'',
                      Heading \<lparr>StartLine = 6, EndLine = 6\<rparr> 4
                        (MdText \<lparr>StartLine = 6, EndLine = 6\<rparr>
                           [LinkI (Link [Plain ''net/http''] ''/pkg/net/http/'' [])]),
                      addLines (para 2 2 ''A new method.'') 7,
                      addLines (para 2 2 ''A new method.'') 10], Links = []\<rparr>, ''net/http'')"
    by code_simp
  have 3: "Blocks (fst introState) \<noteq> []" "Blocks httpNote \<noteq> []"
    by (simp_all add: introState_def httpNote_def)
  from package_heading_once
    [where st = introState and newdoc = httpNote and filename = ?f1 and st' = ?st1,
      THEN conjunct1, rule_format, OF conjI [OF 3(1) conjI [OF 3(2) 1]], THEN conjunct1]
  have "stdlibPackage ?f1 = ''net/http''" by simp
  with 1 2 show ?thesis by blast
qed

section \<open>The merge order\<close>

lemma walkFn_ok:
  "\<forall>e\<in>set es. snd (snd e) = None \<Longrightarrow>
     walkFn filenames es =
       Inr (filenames @ [p. (p, isDir, err) \<leftarrow> es, \<not> isDir \<and> suffix ''.md'' p])"
proof (induction es arbitrary: filenames)
  case Nil
  then show ?case by simp
next
  case (Cons e es)
  obtain p isDir err where e: "e = (p, isDir, err)" by (cases e)
  with Cons.prems have "err = None" by simp
  then show ?case
    using Cons by (simp add: e HasSuffix_def)
qed

lemma dot_before_slash: "p @ ''.md'' < p @ ''/'' @ q"
  by (induction p) simp_all

text \<open>
  Claim C9. When the walk reports no error, the file names \<open>Merge\<close> folds are the paths
  of the entries that are not directories and end in \<open>.md\<close>, sorted as byte strings, and
  \<open>Merge\<close> folds them in that order. In this order \<open>p.md\<close> comes before every path
  under \<open>p/\<close>, and the three names of the example come out as stated.
\<close>

theorem merge_order:
  "((\<forall>e\<in>set (walk fs). snd (snd e) = None) \<longrightarrow>
      sortedMarkdownFilenames fs =
        Inr (sort [p. (p, isDir, err) \<leftarrow> walk fs, \<not> isDir \<and> suffix ''.md'' p]) \<and>
      Merge fs =
        (case mergeFiles fs (\<lparr>Blocks = [], Links = []\<rparr>, [])
                (sort [p. (p, isDir, err) \<leftarrow> walk fs, \<not> isDir \<and> suffix ''.md'' p]) of
           Inl e \<Rightarrow> Inl e
         | Inr st \<Rightarrow> Inr (finish (fst st)))) \<and>
   p @ ''.md'' < p @ ''/'' @ q \<and>
   sort [''a/one.md'', ''a.md'', ''b.md''] = [''a.md'', ''a/one.md'', ''b.md'']"
proof (intro conjI impI)
  assume a: "\<forall>e\<in>set (walk fs). snd (snd e) = None"
  show s: "sortedMarkdownFilenames fs =
        Inr (sort [p. (p, isDir, err) \<leftarrow> walk fs, \<not> isDir \<and> suffix ''.md'' p])"
    using walkFn_ok [OF a, of "[]"] by (simp add: sortedMarkdownFilenames_def)
  show "Merge fs =
        (case mergeFiles fs (\<lparr>Blocks = [], Links = []\<rparr>, [])
                (sort [p. (p, isDir, err) \<leftarrow> walk fs, \<not> isDir \<and> suffix ''.md'' p]) of
           Inl e \<Rightarrow> Inl e
         | Inr st \<Rightarrow> Inr (finish (fst st)))"
    by (simp add: Merge_def s)
next
  show "p @ ''.md'' < p @ ''/'' @ q" by (rule dot_before_slash)
  show "sort [''a/one.md'', ''a.md'', ''b.md''] = [''a.md'', ''a/one.md'', ''b.md'']"
    by code_simp
qed

theorem merge_order_witness:
  "sortedMarkdownFilenames threeFiles = Inr [''a.md'', ''a/one.md'', ''b.md''] \<and>
   Merge threeFiles = Inr threeFilesMerged \<and>
   ''net.md'' < ''net/http.md''"
proof -
  have 1: "\<forall>e\<in>set (walk threeFiles). snd (snd e) = None"
    by (simp add: threeFiles_def)
  have 2: "sort [p. (p, isDir, err) \<leftarrow> walk threeFiles, \<not> isDir \<and> suffix ''.md'' p] =
      [''a.md'', ''a/one.md'', ''b.md'']"
    by code_simp
  have 3: "(case mergeFiles threeFiles (\<lparr>Blocks = [], Links = []\<rparr>, [])
                [''a.md'', ''a/one.md'', ''b.md''] of
           Inl e \<Rightarrow> Inl e
         | Inr st \<Rightarrow> Inr (finish (fst st))) = Inr threeFilesMerged"
    by code_simp
  from merge_order [of threeFiles "''net''" "''http.md''"] 1 2 3
  show ?thesis by simp
qed

section \<open>A single fragment\<close>

lemma noEmptySections_climbing: "noEmptySections bs \<Longrightarrow> successively climbing bs"
proof (induction bs)
  case Nil
  then show ?case by simp
next
  case (Cons b bs)
  then have "successively climbing bs" by simp
  moreover have "climbing b (hd bs)" if "bs \<noteq> []"
    using that Cons.prems
    by (cases bs) (auto simp: climbing_def split: option.splits if_splits)
  ultimately show ?case
    by (auto simp: successively_Cons)
qed

lemma noEmptySections_last:
  "noEmptySections bs \<Longrightarrow> bs \<noteq> [] \<Longrightarrow> headingLevel (last bs) = None"
proof (induction bs)
  case Nil
  then show ?case by simp
next
  case (Cons b bs)
  then show ?case
    by (cases "bs = []") (auto split: option.splits)
qed

lemma noEmptySections_fixed: "noEmptySections bs \<Longrightarrow> removeEmptySections bs = bs"
  by (intro removeEmptySections_settled noEmptySections_climbing)
     (auto simp: keptLast_def dest: noEmptySections_last)

lemma mergeFile_into_empty:
  assumes "Blocks d \<noteq> []" "distinct (map fst (Links d))"
  shows "mergeFile (\<lparr>Blocks = [], Links = []\<rparr>, prev) filename d =
           Inr (\<lparr>Blocks = filter (\<lambda>b. \<not> isEmpty b) (Blocks d), Links = Links d\<rparr>, prev)"
  using assms mergeLinks_fresh [of "[]" "Links d" filename]
  by (simp add: mergeFile_def shiftFragment_def Let_def)

text \<open>
  Claim C6, as amended. Merging a tree whose only Markdown file is a fragment with
  blocks, without duplicate link keys and without empty sections once its Empty blocks
  are dropped, returns the fragment's blocks that are not Empty, unshifted, followed by
  one Empty block two lines below the last of them when the fragment has links; the link
  map is the fragment's.
\<close>

theorem single_fragment:
  assumes "sortedMarkdownFilenames fs = Inr [filename]"
    and "parseFile fs filename = Inr d"
    and "Blocks d \<noteq> []"
    and "distinct (map fst (Links d))"
    and "noEmptySections (filter (\<lambda>b. \<not> isEmpty b) (Blocks d))"
  shows "Merge fs =
           Inr \<lparr>Blocks =
                  (let bs = filter (\<lambda>b. \<not> isEmpty b) (Blocks d)
                   in if bs \<noteq> [] \<and> Links d \<noteq> []
                      then bs @ [Empty (shiftPos 2 (Pos (last bs)))] else bs),
                Links = Links d\<rparr>"
proof -
  let ?bs = "filter (\<lambda>b. \<not> isEmpty b) (Blocks d)"
  have "mergeFiles fs (\<lparr>Blocks = [], Links = []\<rparr>, []) [filename] =
      Inr (\<lparr>Blocks = ?bs, Links = Links d\<rparr>, [])"
    using assms(2) mergeFile_into_empty [OF assms(3,4)] by simp
  then have "Merge fs = Inr (finish \<lparr>Blocks = ?bs, Links = Links d\<rparr>)"
    using assms(1) by (simp add: Merge_def)
  moreover have "removeEmptySections ?bs = ?bs"
    using assms(5) by (rule noEmptySections_fixed)
  ultimately show ?thesis
    by (simp add: finish_def Let_def lastBlock_def)
qed

theorem single_fragment_witness:
  "Merge singleFileTree =
     Inr \<lparr>Blocks = [heading 2 1 ''Tools'', para 3 4 ''See the site.'',
                    Empty \<lparr>StartLine = 5, EndLine = 6\<rparr>],
          Links = [goLink]\<rparr>"
proof -
  let ?d = "\<lparr>Blocks = [heading 2 1 ''Tools'', Empty \<lparr>StartLine = 2, EndLine = 2\<rparr>,
                       para 3 4 ''See the site.''], Links = [goLink]\<rparr>"
  have 1: "sortedMarkdownFilenames singleFileTree = Inr [''note.md'']"
    by code_simp
  have 2: "parseFile singleFileTree ''note.md'' = Inr ?d"
    by code_simp
  have 3: "Blocks ?d \<noteq> []" "distinct (map fst (Links ?d))"
    "noEmptySections (filter (\<lambda>b. \<not> isEmpty b) (Blocks ?d))"
    by (simp_all add: heading_def para_def)
  from single_fragment [OF 1 2 3] show ?thesis
    by (simp add: heading_def para_def shiftPos_def)
qed

text \<open>
  A fragment of one paragraph and one link, without duplicate keys or empty sections: the
  merged document has a second block.
\<close>

theorem single_fragment_blocks_change:
  "Merge linkedNoteTree =
     Inr \<lparr>Blocks = [para 1 1 ''See the site.'', Empty \<lparr>StartLine = 3, EndLine = 3\<rparr>],
          Links = Links linkedNote\<rparr> \<and>
   Blocks linkedNote = [para 1 1 ''See the site.''] \<and>
   distinct (map fst (Links linkedNote)) \<and>
   noEmptySections (Blocks linkedNote)"
  by code_simp

section \<open>CheckFragment\<close>

text \<open>What the loop of \<open>CheckFragment\<close> computes over the body of one section.\<close>

lemma checkSections_body:
  "\<forall>b\<in>set bs. \<not> isHeading b \<Longrightarrow>
     checkSections pt (cur, found) bs =
       (cur, if bs = [] then found
             else Contains (text_md pt (last bs)) ''TODO'' \<or>
                  ContainsAny (text_md pt (last bs)) ''.?!'')"
  by (induction bs arbitrary: found) auto

text \<open>
  Claim C7, at an input where the code departs from it. The section under the heading
  has two paragraphs: the first is a sentence, the second has neither TODO nor
  punctuation. \<open>found\<close> is assigned anew at every block that is not a heading, so the
  second paragraph resets it and \<open>CheckFragment\<close> reports the section as incomplete,
  although a block of the section contains a full stop.
\<close>

theorem CheckFragment_last_block_decides:
  "CheckFragment plainText trailingLine = Some (IncompleteSection ''Title'') \<and>
   ContainsAny (text_md plainText (para 3 3 ''A sentence.'')) ''.?!''"
  by code_simp

end
